theory Spec2Isabelle
  imports Main "HOL-Library.Multiset"
begin

section \<open>go-syncmap: a map guarded by a reader-writer lock\<close>

text \<open>
  The package has two types. \<^verbatim>\<open>SyncMap[K, V]\<close> (syncmap.go) is a struct with a
  \<^verbatim>\<open>sync.RWMutex\<close> and a Go map; each of its methods takes the lock, defers the
  release and works on the map. \<^verbatim>\<open>lockedMap[K, V]\<close> (lockedmap.go) holds a pointer to
  a SyncMap and has the same methods without any locking; \<^verbatim>\<open>DoLocked\<close> and
  \<^verbatim>\<open>DoLockedWithResult\<close> hand it to a callback while they hold the write lock.
  The sources have syncmap.go twice, with the fields named \<^verbatim>\<open>mu\<close>, \<^verbatim>\<open>data\<close> and
  \<^verbatim>\<open>Mu\<close>, \<^verbatim>\<open>Data\<close>; the methods are the same, and \<^verbatim>\<open>lockedMap\<close> uses the second.

  The model is sequential: one call at a time, on an explicit state. A call that would
  wait for the lock is the outcome \<open>Blocked\<close>; a panic is the outcome \<open>Panicked\<close>.
\<close>

subsection \<open>Outcomes of a call\<close>

datatype ('p, 'a) outcome =
    Returned 'a
  | Panicked 'p
  | Blocked
  | Fatal

subsection \<open>sync.RWMutex\<close>

text \<open>
  The logical state of the standard library's lock: whether a writer holds it and how
  many readers do. \<open>Lock\<close> and \<open>RLock\<close> give \<open>None\<close> where the Go call waits;
  \<open>Unlock\<close> and \<open>RUnlock\<close> give \<open>None\<close> where Go stops the program with the fatal
  error "Unlock of unlocked RWMutex".
\<close>

record RWMutex =
  writer :: bool
  readers :: nat

definition unlocked :: RWMutex where
  "unlocked = \<lparr>writer = False, readers = 0\<rparr>"

definition write_locked :: RWMutex where
  "write_locked = \<lparr>writer = True, readers = 0\<rparr>"

definition Lock :: "RWMutex \<Rightarrow> RWMutex option" where
  "Lock mu = (if \<not> writer mu \<and> readers mu = 0 then Some (mu\<lparr>writer := True\<rparr>) else None)"

definition Unlock :: "RWMutex \<Rightarrow> RWMutex option" where
  "Unlock mu = (if writer mu then Some (mu\<lparr>writer := False\<rparr>) else None)"

definition RLock :: "RWMutex \<Rightarrow> RWMutex option" where
  "RLock mu = (if \<not> writer mu then Some (mu\<lparr>readers := Suc (readers mu)\<rparr>) else None)"

definition RUnlock :: "RWMutex \<Rightarrow> RWMutex option" where
  "RUnlock mu = (if 0 < readers mu then Some (mu\<lparr>readers := readers mu - 1\<rparr>) else None)"

subsection \<open>The Go map\<close>

text \<open>
  A Go \<^verbatim>\<open>map[K]V\<close> is a finite partial function. The index expression with two
  results, \<^verbatim>\<open>v, ok := m[k]\<close>, gives the zero value of \<^verbatim>\<open>V\<close> and \<^verbatim>\<open>false\<close> for a
  missing key; the zero value of the value type is the constant \<open>0\<close> of class \<open>zero\<close>.
  The maps of a SyncMap are the ones \<^verbatim>\<open>New\<close> and \<^verbatim>\<open>Purge\<close> make, which are never nil.
\<close>

definition index2 :: "('k \<rightharpoonup> 'v::zero) \<Rightarrow> 'k \<Rightarrow> 'v \<times> bool" where
  "index2 d k = (case d k of None \<Rightarrow> (0, False) | Some v \<Rightarrow> (v, True))"

definition delete :: "('k \<rightharpoonup> 'v) \<Rightarrow> 'k \<Rightarrow> ('k \<rightharpoonup> 'v)" where
  "delete d k = d(k := None)"

definition len :: "('k \<rightharpoonup> 'v) \<Rightarrow> int" where
  "len d = int (card (dom d))"

text \<open>
  \<^verbatim>\<open>for k, v := range d\<close> yields every entry of the map once, in an order the
  runtime chooses anew for each loop. The loops below take that order as the list \<open>es\<close>
  of the entries; \<open>iterates d es\<close> says that \<open>es\<close> is an order the runtime can
  choose for \<open>d\<close>.
\<close>

definition iterates :: "('k \<rightharpoonup> 'v) \<Rightarrow> ('k \<times> 'v) list \<Rightarrow> bool" where
  "iterates d es \<longleftrightarrow> distinct (map fst es) \<and> map_of es = d"

subsection \<open>SyncMap\<close>

record ('k, 'v) SyncMap =
  Mu :: RWMutex
  Data :: "'k \<rightharpoonup> 'v"

text \<open>
  \<^verbatim>\<open>m.Mu.Lock(); defer m.Mu.Unlock(); body\<close>: the body runs with the write lock held,
  and the deferred release runs when the body returns and also when it panics, before
  the panic goes on to the caller. A body that never finishes never reaches it.
\<close>

definition with_Lock ::
  "(('k, 'v) SyncMap \<Rightarrow> ('p, 'a) outcome \<times> ('k, 'v) SyncMap) \<Rightarrow>
   ('k, 'v) SyncMap \<Rightarrow> ('p, 'a) outcome \<times> ('k, 'v) SyncMap" where
  "with_Lock body m =
     (case Lock (Mu m) of
        None \<Rightarrow> (Blocked, m)
      | Some mu \<Rightarrow>
          (case body (m\<lparr>Mu := mu\<rparr>) of
             (Blocked, m') \<Rightarrow> (Blocked, m')
           | (Fatal, m') \<Rightarrow> (Fatal, m')
           | (out, m') \<Rightarrow>
               (case Unlock (Mu m') of
                  None \<Rightarrow> (Fatal, m')
                | Some mu' \<Rightarrow> (out, m'\<lparr>Mu := mu'\<rparr>))))"

text \<open>\<^verbatim>\<open>m.Mu.RLock(); defer m.Mu.RUnlock(); body\<close>: the same with the read lock.\<close>

definition with_RLock ::
  "(('k, 'v) SyncMap \<Rightarrow> ('p, 'a) outcome \<times> ('k, 'v) SyncMap) \<Rightarrow>
   ('k, 'v) SyncMap \<Rightarrow> ('p, 'a) outcome \<times> ('k, 'v) SyncMap" where
  "with_RLock body m =
     (case RLock (Mu m) of
        None \<Rightarrow> (Blocked, m)
      | Some mu \<Rightarrow>
          (case body (m\<lparr>Mu := mu\<rparr>) of
             (Blocked, m') \<Rightarrow> (Blocked, m')
           | (Fatal, m') \<Rightarrow> (Fatal, m')
           | (out, m') \<Rightarrow>
               (case RUnlock (Mu m') of
                  None \<Rightarrow> (Fatal, m')
                | Some mu' \<Rightarrow> (out, m'\<lparr>Mu := mu'\<rparr>))))"


definition SyncMap_Store ::
  "'k \<Rightarrow> 'v \<Rightarrow> ('k, 'v) SyncMap \<Rightarrow> ('p, unit) outcome \<times> ('k, 'v) SyncMap" where
  "SyncMap_Store k v = with_Lock (\<lambda>m. (Returned (), m\<lparr>Data := (Data m)(k \<mapsto> v)\<rparr>))"

definition SyncMap_Load ::
  "'k \<Rightarrow> ('k, 'v::zero) SyncMap \<Rightarrow> ('p, 'v \<times> bool) outcome \<times> ('k, 'v) SyncMap" where
  "SyncMap_Load k = with_RLock (\<lambda>m. (Returned (index2 (Data m) k), m))"

definition SyncMap_Remove ::
  "'k \<Rightarrow> ('k, 'v) SyncMap \<Rightarrow> ('p, bool) outcome \<times> ('k, 'v) SyncMap" where
  "SyncMap_Remove k = with_Lock (\<lambda>m.
     if Data m k = None then (Returned False, m)
     else (Returned True, m\<lparr>Data := delete (Data m) k\<rparr>))"

text \<open>
  The loop of \<^verbatim>\<open>Map\<close>: \<^verbatim>\<open>data[k] = mapFn(k, v)\<close> for every entry, in the order of the
  iteration.
\<close>

fun Map_loop :: "('k \<Rightarrow> 'v \<Rightarrow> 'v) \<Rightarrow> ('k \<times> 'v) list \<Rightarrow> ('k \<rightharpoonup> 'v) \<Rightarrow> ('k \<rightharpoonup> 'v)" where
  "Map_loop mapFn [] data = data"
| "Map_loop mapFn ((k, v) # es) data = Map_loop mapFn es (data(k \<mapsto> mapFn k v))"

definition SyncMap_Map ::
  "('k \<times> 'v) list \<Rightarrow> ('k \<Rightarrow> 'v \<Rightarrow> 'v) \<Rightarrow> ('k, 'v) SyncMap \<Rightarrow>
   ('p, 'k \<rightharpoonup> 'v) outcome \<times> ('k, 'v) SyncMap" where
  "SyncMap_Map es mapFn = with_RLock (\<lambda>m. (Returned (Map_loop mapFn es Map.empty), m))"

text \<open>The loop of \<^verbatim>\<open>Filter\<close>: \<^verbatim>\<open>if predicateFn(k, v) { data[k] = v }\<close>.\<close>

fun Filter_loop :: "('k \<Rightarrow> 'v \<Rightarrow> bool) \<Rightarrow> ('k \<times> 'v) list \<Rightarrow> ('k \<rightharpoonup> 'v) \<Rightarrow> ('k \<rightharpoonup> 'v)" where
  "Filter_loop predicateFn [] data = data"
| "Filter_loop predicateFn ((k, v) # es) data =
     Filter_loop predicateFn es (if predicateFn k v then data(k \<mapsto> v) else data)"

definition SyncMap_Filter ::
  "('k \<times> 'v) list \<Rightarrow> ('k \<Rightarrow> 'v \<Rightarrow> bool) \<Rightarrow> ('k, 'v) SyncMap \<Rightarrow>
   ('p, 'k \<rightharpoonup> 'v) outcome \<times> ('k, 'v) SyncMap" where
  "SyncMap_Filter es predicateFn =
     with_RLock (\<lambda>m. (Returned (Filter_loop predicateFn es Map.empty), m))"

definition SyncMap_Purge :: "('k, 'v) SyncMap \<Rightarrow> ('p, unit) outcome \<times> ('k, 'v) SyncMap" where
  "SyncMap_Purge = with_Lock (\<lambda>m. (Returned (), m\<lparr>Data := Map.empty\<rparr>))"

definition SyncMap_Len :: "('k, 'v) SyncMap \<Rightarrow> ('p, int) outcome \<times> ('k, 'v) SyncMap" where
  "SyncMap_Len = with_RLock (\<lambda>m. (Returned (len (Data m)), m))"

definition SyncMap_LoadOrStore ::
  "'k \<Rightarrow> 'v \<Rightarrow> ('k, 'v) SyncMap \<Rightarrow> ('p, 'v \<times> bool) outcome \<times> ('k, 'v) SyncMap" where
  "SyncMap_LoadOrStore key val = with_Lock (\<lambda>m.
     case Data m key of
       Some v \<Rightarrow> (Returned (v, True), m)
     | None \<Rightarrow> (Returned (val, False), m\<lparr>Data := (Data m)(key \<mapsto> val)\<rparr>))"

definition SyncMap_LoadAndDelete ::
  "'k \<Rightarrow> ('k, 'v::zero) SyncMap \<Rightarrow> ('p, 'v \<times> bool) outcome \<times> ('k, 'v) SyncMap" where
  "SyncMap_LoadAndDelete key = with_Lock (\<lambda>m.
     case index2 (Data m) key of
       (v, ok) \<Rightarrow> (Returned (v, ok), if ok then m\<lparr>Data := delete (Data m) key\<rparr> else m))"

text \<open>
  The loop of \<^verbatim>\<open>Range\<close>. The visitor is a Go closure: it may change variables of its
  own, which are the state \<open>s\<close> here, and it returns whether to go on. The loop ends
  at the first \<^verbatim>\<open>false\<close>.
\<close>

fun Range_loop :: "('k \<Rightarrow> 'v \<Rightarrow> 's \<Rightarrow> bool \<times> 's) \<Rightarrow> ('k \<times> 'v) list \<Rightarrow> 's \<Rightarrow> 's" where
  "Range_loop f [] s = s"
| "Range_loop f ((k, v) # es) s =
     (case f k v s of (go_on, s') \<Rightarrow> if \<not> go_on then s' else Range_loop f es s')"

definition SyncMap_Range ::
  "('k \<times> 'v) list \<Rightarrow> ('k \<Rightarrow> 'v \<Rightarrow> 's \<Rightarrow> bool \<times> 's) \<Rightarrow> 's \<Rightarrow> ('k, 'v) SyncMap \<Rightarrow>
   ('p, 's) outcome \<times> ('k, 'v) SyncMap" where
  "SyncMap_Range es f s = with_RLock (\<lambda>m. (Returned (Range_loop f es s), m))"

subsection \<open>lockedMap\<close>

text \<open>
  \<^verbatim>\<open>lockedMap\<close> is a struct with one field, the pointer \<^verbatim>\<open>m\<close> to the SyncMap, so its
  methods read and write that SyncMap: each takes the state of the SyncMap and gives
  its result with the state afterwards. None of them touches \<^verbatim>\<open>Mu\<close>.
\<close>

definition lockedMap_Len :: "('k, 'v) SyncMap \<Rightarrow> int \<times> ('k, 'v) SyncMap" where
  "lockedMap_Len m = (len (Data m), m)"

definition lockedMap_Load ::
  "'k \<Rightarrow> ('k, 'v::zero) SyncMap \<Rightarrow> ('v \<times> bool) \<times> ('k, 'v) SyncMap" where
  "lockedMap_Load key m = (index2 (Data m) key, m)"

definition lockedMap_Store :: "'k \<Rightarrow> 'v \<Rightarrow> ('k, 'v) SyncMap \<Rightarrow> unit \<times> ('k, 'v) SyncMap" where
  "lockedMap_Store key val m = ((), m\<lparr>Data := (Data m)(key \<mapsto> val)\<rparr>)"

definition lockedMap_LoadAndDelete ::
  "'k \<Rightarrow> ('k, 'v::zero) SyncMap \<Rightarrow> ('v \<times> bool) \<times> ('k, 'v) SyncMap" where
  "lockedMap_LoadAndDelete key m =
     (case index2 (Data m) key of
        (v, ok) \<Rightarrow> ((v, ok), if ok then m\<lparr>Data := delete (Data m) key\<rparr> else m))"

definition lockedMap_Range ::
  "('k \<times> 'v) list \<Rightarrow> ('k \<Rightarrow> 'v \<Rightarrow> 's \<Rightarrow> bool \<times> 's) \<Rightarrow> 's \<Rightarrow> ('k, 'v) SyncMap \<Rightarrow>
   's \<times> ('k, 'v) SyncMap" where
  "lockedMap_Range es f s m = (Range_loop f es s, m)"

definition lockedMap_Purge :: "('k, 'v) SyncMap \<Rightarrow> unit \<times> ('k, 'v) SyncMap" where
  "lockedMap_Purge m = ((), m\<lparr>Data := Map.empty\<rparr>)"

definition lockedMap_Remove :: "'k \<Rightarrow> ('k, 'v) SyncMap \<Rightarrow> bool \<times> ('k, 'v) SyncMap" where
  "lockedMap_Remove k m =
     (if Data m k = None then (False, m) else (True, m\<lparr>Data := delete (Data m) k\<rparr>))"

definition lockedMap_LoadOrStore ::
  "'k \<Rightarrow> 'v \<Rightarrow> ('k, 'v) SyncMap \<Rightarrow> ('v \<times> bool) \<times> ('k, 'v) SyncMap" where
  "lockedMap_LoadOrStore key val m =
     (case Data m key of
        Some v \<Rightarrow> ((v, True), m)
      | None \<Rightarrow> ((val, False), m\<lparr>Data := (Data m)(key \<mapsto> val)\<rparr>))"

definition lockedMap_Filter ::
  "('k \<times> 'v) list \<Rightarrow> ('k \<Rightarrow> 'v \<Rightarrow> bool) \<Rightarrow> ('k, 'v) SyncMap \<Rightarrow>
   ('k \<rightharpoonup> 'v) \<times> ('k, 'v) SyncMap" where
  "lockedMap_Filter es predicateFn m = (Filter_loop predicateFn es Map.empty, m)"

definition lockedMap_Map ::
  "('k \<times> 'v) list \<Rightarrow> ('k \<Rightarrow> 'v \<Rightarrow> 'v) \<Rightarrow> ('k, 'v) SyncMap \<Rightarrow>
   ('k \<rightharpoonup> 'v) \<times> ('k, 'v) SyncMap" where
  "lockedMap_Map es mapFn m = (Map_loop mapFn es Map.empty, m)"

subsection \<open>Callbacks of DoLocked and DoLockedWithResult\<close>

text \<open>
  A callback \<^verbatim>\<open>func(LockedMap[K, V]) any\<close> is caller's code that calls methods of the
  view it is given, decides from their results what to do next, and in the end returns
  a value or panics. It is the tree of these calls: each node is one call of a method
  of \<^verbatim>\<open>LockedMap\<close>, with the rest of the callback as a function of the call's result.
\<close>

datatype ('k, 'v, 's, 'p, 'r) callback =
    Return 'r
  | Panic 'p
  | Call_Len "int \<Rightarrow> ('k, 'v, 's, 'p, 'r) callback"
  | Call_Load 'k "'v \<times> bool \<Rightarrow> ('k, 'v, 's, 'p, 'r) callback"
  | Call_Store 'k 'v "('k, 'v, 's, 'p, 'r) callback"
  | Call_LoadAndDelete 'k "'v \<times> bool \<Rightarrow> ('k, 'v, 's, 'p, 'r) callback"
  | Call_Range "'k \<Rightarrow> 'v \<Rightarrow> 's \<Rightarrow> bool \<times> 's" 's "'s \<Rightarrow> ('k, 'v, 's, 'p, 'r) callback"
  | Call_Purge "('k, 'v, 's, 'p, 'r) callback"
  | Call_Remove 'k "bool \<Rightarrow> ('k, 'v, 's, 'p, 'r) callback"
  | Call_LoadOrStore 'k 'v "'v \<times> bool \<Rightarrow> ('k, 'v, 's, 'p, 'r) callback"
  | Call_Filter "'k \<Rightarrow> 'v \<Rightarrow> bool" "('k \<rightharpoonup> 'v) \<Rightarrow> ('k, 'v, 's, 'p, 'r) callback"
  | Call_Map "'k \<Rightarrow> 'v \<Rightarrow> 'v" "('k \<rightharpoonup> 'v) \<Rightarrow> ('k, 'v, 's, 'p, 'r) callback"

text \<open>
  Running a callback on the view \<^verbatim>\<open>&lockedMap{m: m}\<close>: every call goes to the method of
  \<^verbatim>\<open>lockedMap\<close>. \<open>it\<close> is the order in which the runtime iterates a map inside the
  callback.
\<close>

primrec run_callback ::
  "('k, 'v::zero, 's, 'p, 'r) callback \<Rightarrow> (('k \<rightharpoonup> 'v) \<Rightarrow> ('k \<times> 'v) list) \<Rightarrow>
   ('k, 'v) SyncMap \<Rightarrow> ('p, 'r) outcome \<times> ('k, 'v) SyncMap" where
  "run_callback (Return r) it m = (Returned r, m)"
| "run_callback (Panic p) it m = (Panicked p, m)"
| "run_callback (Call_Len c) it m =
     (case lockedMap_Len m of (n, m') \<Rightarrow> run_callback (c n) it m')"
| "run_callback (Call_Load key c) it m =
     (case lockedMap_Load key m of (r, m') \<Rightarrow> run_callback (c r) it m')"
| "run_callback (Call_Store key val c) it m =
     (case lockedMap_Store key val m of (_, m') \<Rightarrow> run_callback c it m')"
| "run_callback (Call_LoadAndDelete key c) it m =
     (case lockedMap_LoadAndDelete key m of (r, m') \<Rightarrow> run_callback (c r) it m')"
| "run_callback (Call_Range f s c) it m =
     (case lockedMap_Range (it (Data m)) f s m of (s', m') \<Rightarrow> run_callback (c s') it m')"
| "run_callback (Call_Purge c) it m =
     (case lockedMap_Purge m of (_, m') \<Rightarrow> run_callback c it m')"
| "run_callback (Call_Remove k c) it m =
     (case lockedMap_Remove k m of (b, m') \<Rightarrow> run_callback (c b) it m')"
| "run_callback (Call_LoadOrStore key val c) it m =
     (case lockedMap_LoadOrStore key val m of (r, m') \<Rightarrow> run_callback (c r) it m')"
| "run_callback (Call_Filter predicateFn c) it m =
     (case lockedMap_Filter (it (Data m)) predicateFn m of (d, m') \<Rightarrow> run_callback (c d) it m')"
| "run_callback (Call_Map mapFn c) it m =
     (case lockedMap_Map (it (Data m)) mapFn m of (d, m') \<Rightarrow> run_callback (c d) it m')"

definition SyncMap_DoLocked ::
  "(('k \<rightharpoonup> 'v) \<Rightarrow> ('k \<times> 'v) list) \<Rightarrow> ('k, 'v::zero, 's, 'p, unit) callback \<Rightarrow>
   ('k, 'v) SyncMap \<Rightarrow> ('p, unit) outcome \<times> ('k, 'v) SyncMap" where
  "SyncMap_DoLocked it f = with_Lock (\<lambda>m. run_callback f it m)"

definition SyncMap_DoLockedWithResult ::
  "(('k \<rightharpoonup> 'v) \<Rightarrow> ('k \<times> 'v) list) \<Rightarrow> ('k, 'v::zero, 's, 'p, 'r) callback \<Rightarrow>
   ('k, 'v) SyncMap \<Rightarrow> ('p, 'r) outcome \<times> ('k, 'v) SyncMap" where
  "SyncMap_DoLockedWithResult it f = with_Lock (\<lambda>m. run_callback f it m)"

subsection \<open>Sequences of calls\<close>






subsection \<open>A visitor that keeps a record of its calls\<close>

text \<open>
  \<open>traced f\<close> is the visitor \<open>f\<close> with one more variable, the list of its calls so
  far: the key and the value it was called with and the signal it returned, as a
  closure that appends to a slice does.
\<close>

definition traced ::
  "('k \<Rightarrow> 'v \<Rightarrow> 's \<Rightarrow> bool \<times> 's) \<Rightarrow>
   'k \<Rightarrow> 'v \<Rightarrow> 's \<times> ('k \<times> 'v \<times> bool) list \<Rightarrow> bool \<times> 's \<times> ('k \<times> 'v \<times> bool) list" where
  "traced f k v st =
     (case st of (s, tr) \<Rightarrow>
        (case f k v s of (go_on, s') \<Rightarrow> (go_on, s', tr @ [(k, v, go_on)])))"

subsection \<open>Comparing a method of SyncMap with the method of lockedMap\<close>

text \<open>
  \<open>released rv\<close>: a method of \<^verbatim>\<open>lockedMap\<close> gave the result and the state \<open>rv\<close>;
  the same result as the outcome of a call that returned, on the same state with the
  lock free again.
\<close>

definition released :: "'a \<times> ('k, 'v) SyncMap \<Rightarrow> ('p, 'a) outcome \<times> ('k, 'v) SyncMap" where
  "released rv = (case rv of (r, m') \<Rightarrow> (Returned r, m'\<lparr>Mu := unlocked\<rparr>))"

subsection \<open>An example state\<close>

definition example_map :: "(nat, int) SyncMap" where
  "example_map = \<lparr>Mu = unlocked, Data = [2 \<mapsto> 20, 1 \<mapsto> 10]\<rparr>"

section \<open>The methods on a SyncMap whose lock is free\<close>

text \<open>
  Between two calls of a sequential program the lock is free. Then the lock is taken
  and released again around the body, and the call returns what the body computes.
\<close>

lemma with_Lock_unlocked:
  assumes "Mu m = unlocked"
    and "body (m\<lparr>Mu := write_locked\<rparr>) = (out, m')"
    and "Mu m' = write_locked"
    and "out \<noteq> Blocked" and "out \<noteq> Fatal"
  shows "with_Lock body m = (out, m'\<lparr>Mu := unlocked\<rparr>)"
  using assms
  by (cases out) (simp_all add: with_Lock_def Lock_def Unlock_def unlocked_def write_locked_def)

lemma with_RLock_unlocked:
  assumes "Mu m = unlocked"
    and "body (m\<lparr>Mu := unlocked\<lparr>readers := Suc 0\<rparr>\<rparr>) = (out, m')"
    and "Mu m' = unlocked\<lparr>readers := Suc 0\<rparr>"
    and "out \<noteq> Blocked" and "out \<noteq> Fatal"
  shows "with_RLock body m = (out, m'\<lparr>Mu := unlocked\<rparr>)"
  using assms
  by (cases out) (simp_all add: with_RLock_def RLock_def RUnlock_def unlocked_def)

lemma Store_unlocked:
  "Mu m = unlocked \<Longrightarrow> SyncMap_Store k v m = (Returned (), m\<lparr>Data := (Data m)(k \<mapsto> v)\<rparr>)"
  unfolding SyncMap_Store_def by (subst with_Lock_unlocked) auto

lemma Load_unlocked:
  "Mu m = unlocked \<Longrightarrow> SyncMap_Load k m = (Returned (index2 (Data m) k), m)"
  unfolding SyncMap_Load_def by (subst with_RLock_unlocked) auto

lemma Remove_unlocked:
  "Mu m = unlocked \<Longrightarrow>
   SyncMap_Remove k m = (Returned (Data m k \<noteq> None), m\<lparr>Data := (Data m)(k := None)\<rparr>)"
  unfolding SyncMap_Remove_def
  by (subst with_Lock_unlocked[where m' = "(m\<lparr>Data := (Data m)(k := None)\<rparr>)\<lparr>Mu := write_locked\<rparr>"
        and out = "Returned (Data m k \<noteq> None)"])
     (auto simp: delete_def fun_upd_idem)

lemma Purge_unlocked:
  "Mu m = unlocked \<Longrightarrow> SyncMap_Purge m = (Returned (), m\<lparr>Data := Map.empty\<rparr>)"
  unfolding SyncMap_Purge_def by (subst with_Lock_unlocked) auto

lemma Len_unlocked:
  "Mu m = unlocked \<Longrightarrow> SyncMap_Len m = (Returned (len (Data m)), m)"
  unfolding SyncMap_Len_def by (subst with_RLock_unlocked) auto

lemma LoadOrStore_unlocked:
  "Mu m = unlocked \<Longrightarrow>
   SyncMap_LoadOrStore k v m =
     (case Data m k of
        Some v' \<Rightarrow> (Returned (v', True), m)
      | None \<Rightarrow> (Returned (v, False), m\<lparr>Data := (Data m)(k \<mapsto> v)\<rparr>))"
  unfolding SyncMap_LoadOrStore_def
  by (cases "Data m k"; subst with_Lock_unlocked) auto

lemma LoadAndDelete_unlocked:
  "Mu m = unlocked \<Longrightarrow>
   SyncMap_LoadAndDelete k m = (Returned (index2 (Data m) k), m\<lparr>Data := (Data m)(k := None)\<rparr>)"
  unfolding SyncMap_LoadAndDelete_def
  by (cases "Data m k"; subst with_Lock_unlocked)
     (auto simp: delete_def index2_def fun_upd_idem)

lemma Map_unlocked:
  "Mu m = unlocked \<Longrightarrow> SyncMap_Map es f m = (Returned (Map_loop f es Map.empty), m)"
  unfolding SyncMap_Map_def by (subst with_RLock_unlocked) auto

lemma Filter_unlocked:
  "Mu m = unlocked \<Longrightarrow> SyncMap_Filter es p m = (Returned (Filter_loop p es Map.empty), m)"
  unfolding SyncMap_Filter_def by (subst with_RLock_unlocked) auto

lemma Range_unlocked:
  "Mu m = unlocked \<Longrightarrow> SyncMap_Range es f s m = (Returned (Range_loop f es s), m)"
  unfolding SyncMap_Range_def by (subst with_RLock_unlocked) auto

section \<open>Store and Load\<close>








section \<open>The methods of lockedMap and of SyncMap\<close>

text \<open>
  C2. For each of the ten operations, the method of \<^verbatim>\<open>SyncMap\<close> on a state whose lock is
  free returns the result that the method of \<^verbatim>\<open>lockedMap\<close> gives on the same map, and
  leaves the state that the method of \<^verbatim>\<open>lockedMap\<close> leaves, with the lock free again.
  The method of \<^verbatim>\<open>lockedMap\<close> leaves the lock as it finds it, whatever its state \<open>l\<close>.
\<close>

theorem lockedMap_same_as_SyncMap:
  "Mu m = unlocked \<longrightarrow>
     SyncMap_Load k m = released (lockedMap_Load k (m\<lparr>Mu := l\<rparr>))
   \<and> SyncMap_Store k v m = released (lockedMap_Store k v (m\<lparr>Mu := l\<rparr>))
   \<and> SyncMap_LoadOrStore k v m = released (lockedMap_LoadOrStore k v (m\<lparr>Mu := l\<rparr>))
   \<and> SyncMap_LoadAndDelete k m = released (lockedMap_LoadAndDelete k (m\<lparr>Mu := l\<rparr>))
   \<and> SyncMap_Remove k m = released (lockedMap_Remove k (m\<lparr>Mu := l\<rparr>))
   \<and> SyncMap_Purge m = released (lockedMap_Purge (m\<lparr>Mu := l\<rparr>))
   \<and> SyncMap_Range es f s m = released (lockedMap_Range es f s (m\<lparr>Mu := l\<rparr>))
   \<and> SyncMap_Filter es predicateFn m = released (lockedMap_Filter es predicateFn (m\<lparr>Mu := l\<rparr>))
   \<and> SyncMap_Map es mapFn m = released (lockedMap_Map es mapFn (m\<lparr>Mu := l\<rparr>))
   \<and> SyncMap_Len m = released (lockedMap_Len (m\<lparr>Mu := l\<rparr>))
   \<and> Mu (snd (lockedMap_Load k (m\<lparr>Mu := l\<rparr>))) = l
   \<and> Mu (snd (lockedMap_Store k v (m\<lparr>Mu := l\<rparr>))) = l
   \<and> Mu (snd (lockedMap_LoadOrStore k v (m\<lparr>Mu := l\<rparr>))) = l
   \<and> Mu (snd (lockedMap_LoadAndDelete k (m\<lparr>Mu := l\<rparr>))) = l
   \<and> Mu (snd (lockedMap_Remove k (m\<lparr>Mu := l\<rparr>))) = l
   \<and> Mu (snd (lockedMap_Purge (m\<lparr>Mu := l\<rparr>))) = l
   \<and> Mu (snd (lockedMap_Range es f s (m\<lparr>Mu := l\<rparr>))) = l
   \<and> Mu (snd (lockedMap_Filter es predicateFn (m\<lparr>Mu := l\<rparr>))) = l
   \<and> Mu (snd (lockedMap_Map es mapFn (m\<lparr>Mu := l\<rparr>))) = l
   \<and> Mu (snd (lockedMap_Len (m\<lparr>Mu := l\<rparr>))) = l"
proof
  assume u: "Mu m = unlocked"
  have [simp]: "m\<lparr>Mu := unlocked\<rparr> = m" using u by simp
  have 1: "SyncMap_Load k m = released (lockedMap_Load k (m\<lparr>Mu := l\<rparr>))"
    using u by (simp add: Load_unlocked lockedMap_Load_def released_def)
  have 2: "SyncMap_Store k v m = released (lockedMap_Store k v (m\<lparr>Mu := l\<rparr>))"
    using u by (simp add: Store_unlocked lockedMap_Store_def released_def)
  have 3: "SyncMap_LoadOrStore k v m = released (lockedMap_LoadOrStore k v (m\<lparr>Mu := l\<rparr>))"
    using u by (simp add: LoadOrStore_unlocked lockedMap_LoadOrStore_def released_def
        split: option.splits)
  have 4: "SyncMap_LoadAndDelete k m = released (lockedMap_LoadAndDelete k (m\<lparr>Mu := l\<rparr>))"
    using u by (cases "Data m k")
      (simp_all add: LoadAndDelete_unlocked lockedMap_LoadAndDelete_def released_def index2_def
        delete_def fun_upd_idem)
  have 5: "SyncMap_Remove k m = released (lockedMap_Remove k (m\<lparr>Mu := l\<rparr>))"
    using u by (cases "Data m k")
      (simp_all add: Remove_unlocked lockedMap_Remove_def released_def delete_def fun_upd_idem)
  have 6: "SyncMap_Purge m = released (lockedMap_Purge (m\<lparr>Mu := l\<rparr>))"
    using u by (simp add: Purge_unlocked lockedMap_Purge_def released_def)
  have 7: "SyncMap_Range es f s m = released (lockedMap_Range es f s (m\<lparr>Mu := l\<rparr>))"
    using u by (simp add: Range_unlocked lockedMap_Range_def released_def)
  have 8: "SyncMap_Filter es predicateFn m = released (lockedMap_Filter es predicateFn (m\<lparr>Mu := l\<rparr>))"
    using u by (simp add: Filter_unlocked lockedMap_Filter_def released_def)
  have 9: "SyncMap_Map es mapFn m = released (lockedMap_Map es mapFn (m\<lparr>Mu := l\<rparr>))"
    using u by (simp add: Map_unlocked lockedMap_Map_def released_def)
  have 10: "SyncMap_Len m = released (lockedMap_Len (m\<lparr>Mu := l\<rparr>))"
    using u by (simp add: Len_unlocked lockedMap_Len_def released_def)
  have 11: "Mu (snd (lockedMap_Load k (m\<lparr>Mu := l\<rparr>))) = l"
    by (simp add: lockedMap_Load_def)
  have 12: "Mu (snd (lockedMap_Store k v (m\<lparr>Mu := l\<rparr>))) = l"
    by (simp add: lockedMap_Store_def)
  have 13: "Mu (snd (lockedMap_LoadOrStore k v (m\<lparr>Mu := l\<rparr>))) = l"
    by (simp add: lockedMap_LoadOrStore_def split: option.splits)
  have 14: "Mu (snd (lockedMap_LoadAndDelete k (m\<lparr>Mu := l\<rparr>))) = l"
    by (simp add: lockedMap_LoadAndDelete_def split: prod.splits)
  have 15: "Mu (snd (lockedMap_Remove k (m\<lparr>Mu := l\<rparr>))) = l"
    by (simp add: lockedMap_Remove_def)
  have 16: "Mu (snd (lockedMap_Purge (m\<lparr>Mu := l\<rparr>))) = l"
    by (simp add: lockedMap_Purge_def)
  have 17: "Mu (snd (lockedMap_Range es f s (m\<lparr>Mu := l\<rparr>))) = l"
    by (simp add: lockedMap_Range_def)
  have 18: "Mu (snd (lockedMap_Filter es predicateFn (m\<lparr>Mu := l\<rparr>))) = l"
    by (simp add: lockedMap_Filter_def)
  have 19: "Mu (snd (lockedMap_Map es mapFn (m\<lparr>Mu := l\<rparr>))) = l"
    by (simp add: lockedMap_Map_def)
  have 20: "Mu (snd (lockedMap_Len (m\<lparr>Mu := l\<rparr>))) = l"
    by (simp add: lockedMap_Len_def)
  from 1 2 3 4 5 6 7 8 9 10 11 12 13 14 15 16 17 18 19 20
  show "SyncMap_Load k m = released (lockedMap_Load k (m\<lparr>Mu := l\<rparr>))
   \<and> SyncMap_Store k v m = released (lockedMap_Store k v (m\<lparr>Mu := l\<rparr>))
   \<and> SyncMap_LoadOrStore k v m = released (lockedMap_LoadOrStore k v (m\<lparr>Mu := l\<rparr>))
   \<and> SyncMap_LoadAndDelete k m = released (lockedMap_LoadAndDelete k (m\<lparr>Mu := l\<rparr>))
   \<and> SyncMap_Remove k m = released (lockedMap_Remove k (m\<lparr>Mu := l\<rparr>))
   \<and> SyncMap_Purge m = released (lockedMap_Purge (m\<lparr>Mu := l\<rparr>))
   \<and> SyncMap_Range es f s m = released (lockedMap_Range es f s (m\<lparr>Mu := l\<rparr>))
   \<and> SyncMap_Filter es predicateFn m = released (lockedMap_Filter es predicateFn (m\<lparr>Mu := l\<rparr>))
   \<and> SyncMap_Map es mapFn m = released (lockedMap_Map es mapFn (m\<lparr>Mu := l\<rparr>))
   \<and> SyncMap_Len m = released (lockedMap_Len (m\<lparr>Mu := l\<rparr>))
   \<and> Mu (snd (lockedMap_Load k (m\<lparr>Mu := l\<rparr>))) = l
   \<and> Mu (snd (lockedMap_Store k v (m\<lparr>Mu := l\<rparr>))) = l
   \<and> Mu (snd (lockedMap_LoadOrStore k v (m\<lparr>Mu := l\<rparr>))) = l
   \<and> Mu (snd (lockedMap_LoadAndDelete k (m\<lparr>Mu := l\<rparr>))) = l
   \<and> Mu (snd (lockedMap_Remove k (m\<lparr>Mu := l\<rparr>))) = l
   \<and> Mu (snd (lockedMap_Purge (m\<lparr>Mu := l\<rparr>))) = l
   \<and> Mu (snd (lockedMap_Range es f s (m\<lparr>Mu := l\<rparr>))) = l
   \<and> Mu (snd (lockedMap_Filter es predicateFn (m\<lparr>Mu := l\<rparr>))) = l
   \<and> Mu (snd (lockedMap_Map es mapFn (m\<lparr>Mu := l\<rparr>))) = l
   \<and> Mu (snd (lockedMap_Len (m\<lparr>Mu := l\<rparr>))) = l"
    by (intro conjI)
qed

theorem lockedMap_same_as_SyncMap_witness:
  "Mu example_map = unlocked
   \<and> SyncMap_LoadOrStore 3 7 example_map = (Returned (7, False), example_map\<lparr>Data := [2 \<mapsto> 20, 1 \<mapsto> 10, 3 \<mapsto> 7]\<rparr>)
   \<and> lockedMap_LoadOrStore 3 7 (example_map\<lparr>Mu := write_locked\<rparr>) =
       ((7, False), \<lparr>Mu = write_locked, Data = [2 \<mapsto> 20, 1 \<mapsto> 10, 3 \<mapsto> 7]\<rparr>)
   \<and> SyncMap_LoadAndDelete 1 example_map = released (lockedMap_LoadAndDelete 1 (example_map\<lparr>Mu := write_locked\<rparr>))
   \<and> SyncMap_Len example_map = (Returned 2, example_map)
   \<and> lockedMap_Len (example_map\<lparr>Mu := write_locked\<rparr>) = (2, example_map\<lparr>Mu := write_locked\<rparr>)"
  using lockedMap_same_as_SyncMap[of example_map 1 write_locked 7 "[(1, 10), (2, 20)]"
      "\<lambda>k v s. (True, s + v)" 0 "\<lambda>k v. 15 < v" "\<lambda>k v. v * 2"]
  by (simp add: example_map_def unlocked_def write_locked_def with_Lock_def Lock_def Unlock_def with_RLock_def RLock_def RUnlock_def index2_def delete_def len_def
      released_def SyncMap_LoadOrStore_def SyncMap_LoadAndDelete_def SyncMap_Len_def
      lockedMap_LoadOrStore_def lockedMap_LoadAndDelete_def lockedMap_Len_def)

section \<open>DoLocked and DoLockedWithResult\<close>

lemma run_callback_Mu:
  "\<exists>out m'. run_callback f it m = (out, m') \<and> Mu m' = Mu m \<and> out \<noteq> Blocked \<and> out \<noteq> Fatal"
proof (induction f arbitrary: m)
  case (Return r)
  show ?case by simp
next
  case (Panic p)
  show ?case by simp
next
  case (Call_Len c)
  show ?case using Call_Len.IH[OF rangeI] by (simp add: lockedMap_Len_def)
next
  case (Call_Load key c)
  show ?case using Call_Load.IH[OF rangeI] by (simp add: lockedMap_Load_def)
next
  case (Call_Store key val c)
  show ?case using Call_Store.IH[of "m\<lparr>Data := (Data m)(key \<mapsto> val)\<rparr>"]
    by (simp add: lockedMap_Store_def)
next
  case (Call_LoadAndDelete key c)
  obtain v ok where i: "index2 (Data m) key = (v, ok)" by (cases "index2 (Data m) key")
  show ?case
    using Call_LoadAndDelete.IH[OF rangeI, of "(v, ok)" "m\<lparr>Data := delete (Data m) key\<rparr>"]
      Call_LoadAndDelete.IH[OF rangeI, of "(v, ok)" m] i
    by (cases ok) (simp_all add: lockedMap_LoadAndDelete_def)
next
  case (Call_Range f s c)
  show ?case using Call_Range.IH[OF rangeI] by (simp add: lockedMap_Range_def)
next
  case (Call_Purge c)
  show ?case using Call_Purge.IH[of "m\<lparr>Data := Map.empty\<rparr>"] by (simp add: lockedMap_Purge_def)
next
  case (Call_Remove k c)
  show ?case
    using Call_Remove.IH[OF rangeI, of False m]
      Call_Remove.IH[OF rangeI, of True "m\<lparr>Data := delete (Data m) k\<rparr>"]
    by (simp add: lockedMap_Remove_def)
next
  case (Call_LoadOrStore key val c)
  show ?case
  proof (cases "Data m key")
    case None
    then show ?thesis
      using Call_LoadOrStore.IH[OF rangeI, of "(val, False)" "m\<lparr>Data := (Data m)(key \<mapsto> val)\<rparr>"]
      by (simp add: lockedMap_LoadOrStore_def)
  next
    case (Some v)
    then show ?thesis
      using Call_LoadOrStore.IH[OF rangeI, of "(v, True)" m] by (simp add: lockedMap_LoadOrStore_def)
  qed
next
  case (Call_Filter p c)
  show ?case using Call_Filter.IH[OF rangeI] by (simp add: lockedMap_Filter_def)
next
  case (Call_Map g c)
  show ?case using Call_Map.IH[OF rangeI] by (simp add: lockedMap_Map_def)
qed

lemma with_Lock_run_callback:
  assumes "Mu m = unlocked" and "run_callback f it (m\<lparr>Mu := write_locked\<rparr>) = (out, m')"
  shows "with_Lock (\<lambda>m. run_callback f it m) m = (out, m'\<lparr>Mu := unlocked\<rparr>)"
proof -
  from run_callback_Mu[of f it "m\<lparr>Mu := write_locked\<rparr>"] assms(2)
  have "Mu m' = write_locked" "out \<noteq> Blocked" "out \<noteq> Fatal" by auto
  with assms show ?thesis by (intro with_Lock_unlocked)
qed

text \<open>
  C3. When the callback returns \<open>r\<close>, \<^verbatim>\<open>DoLockedWithResult\<close> returns \<open>r\<close>, and the
  SyncMap is left with the map the callback left and the lock free, so that a later
  \<^verbatim>\<open>Load\<close> reads the callback's writes. A callback that stores two different keys:
  \<^verbatim>\<open>Load\<close> finds both afterwards.
\<close>

theorem DoLockedWithResult_returns:
  "Mu m = unlocked \<longrightarrow>
     (\<forall>r m'. run_callback f it (m\<lparr>Mu := write_locked\<rparr>) = (Returned r, m') \<longrightarrow>
        SyncMap_DoLockedWithResult it f m = (Returned r, m'\<lparr>Mu := unlocked\<rparr>)
      \<and> (\<forall>k. SyncMap_Load k (m'\<lparr>Mu := unlocked\<rparr>) =
              (Returned (index2 (Data m') k), m'\<lparr>Mu := unlocked\<rparr>)))
   \<and> (k1 \<noteq> k2 \<longrightarrow>
        (\<exists>m'. SyncMap_DoLockedWithResult it (Call_Store k1 v1 (Call_Store k2 v2 (Return r0))) m =
                (Returned r0, m')
            \<and> SyncMap_Load k1 m' = (Returned (v1, True), m')
            \<and> SyncMap_Load k2 m' = (Returned (v2, True), m')))"
proof (intro impI conjI allI)
  fix r m'
  assume u: "Mu m = unlocked" and r: "run_callback f it (m\<lparr>Mu := write_locked\<rparr>) = (Returned r, m')"
  show "SyncMap_DoLockedWithResult it f m = (Returned r, m'\<lparr>Mu := unlocked\<rparr>)"
    unfolding SyncMap_DoLockedWithResult_def using u r by (rule with_Lock_run_callback)
next
  assume u: "Mu m = unlocked" and ne: "k1 \<noteq> k2"
  let ?f = "Call_Store k1 v1 (Call_Store k2 v2 (Return r0))"
  let ?m' = "m\<lparr>Data := (Data m)(k1 \<mapsto> v1, k2 \<mapsto> v2)\<rparr>"
  have eq: "?m'\<lparr>Mu := write_locked\<rparr>\<lparr>Mu := unlocked\<rparr> = ?m'"
    using u by simp
  have "run_callback ?f it (m\<lparr>Mu := write_locked\<rparr>) = (Returned r0, ?m'\<lparr>Mu := write_locked\<rparr>)"
    by (simp add: lockedMap_Store_def)
  from with_Lock_run_callback[OF u this]
  have "SyncMap_DoLockedWithResult it ?f m = (Returned r0, ?m')"
    by (simp only: eq SyncMap_DoLockedWithResult_def)
  moreover have "SyncMap_Load k1 ?m' = (Returned (v1, True), ?m')"
    "SyncMap_Load k2 ?m' = (Returned (v2, True), ?m')"
    using u ne by (simp_all add: Load_unlocked index2_def)
  ultimately show "\<exists>m'. SyncMap_DoLockedWithResult it ?f m = (Returned r0, m')
            \<and> SyncMap_Load k1 m' = (Returned (v1, True), m')
            \<and> SyncMap_Load k2 m' = (Returned (v2, True), m')"
    by blast
qed (simp add: Load_unlocked)

theorem DoLockedWithResult_returns_witness:
  "Mu example_map = unlocked
   \<and> run_callback (Call_Store 3 30 (Call_Len (\<lambda>n. Return n))) (\<lambda>d. []) (example_map\<lparr>Mu := write_locked\<rparr>) =
       (Returned 3, \<lparr>Mu = write_locked, Data = [2 \<mapsto> 20, 1 \<mapsto> 10, 3 \<mapsto> 30]\<rparr>)
   \<and> SyncMap_DoLockedWithResult (\<lambda>d. []) (Call_Store 3 30 (Call_Len (\<lambda>n. Return n))) example_map =
       (Returned 3, \<lparr>Mu = unlocked, Data = [2 \<mapsto> 20, 1 \<mapsto> 10, 3 \<mapsto> 30]\<rparr>)
   \<and> (5::nat) \<noteq> 6
   \<and> (\<exists>m'. SyncMap_DoLockedWithResult (\<lambda>d. [])
              (Call_Store 5 50 (Call_Store 6 60 (Return ''done''))) example_map = (Returned ''done'', m')
          \<and> SyncMap_Load 5 m' = (Returned (50, True), m')
          \<and> SyncMap_Load 6 m' = (Returned (60, True), m'))"
  using DoLockedWithResult_returns[of example_map "Call_Store 3 30 (Call_Len (\<lambda>n. Return n))"
      "\<lambda>d. []" 5 6 50 60 "''done''"]
  by (simp add: example_map_def unlocked_def write_locked_def with_Lock_def Lock_def Unlock_def with_RLock_def RLock_def RUnlock_def index2_def len_def
      SyncMap_DoLockedWithResult_def SyncMap_Load_def lockedMap_Store_def lockedMap_Len_def)

text \<open>
  C4. When the callback panics with the value \<open>p\<close>, \<^verbatim>\<open>DoLocked\<close> and
  \<^verbatim>\<open>DoLockedWithResult\<close> panic with the same \<open>p\<close>, and the caller gets the SyncMap with
  the lock free: a \<^verbatim>\<open>Store\<close> or a \<^verbatim>\<open>Load\<close> on it returns.
\<close>

theorem DoLocked_panic_unlocks:
  "Mu m = unlocked \<longrightarrow>
     (\<forall>p m'. run_callback f it (m\<lparr>Mu := write_locked\<rparr>) = (Panicked p, m') \<longrightarrow>
        SyncMap_DoLocked it f m = (Panicked p, m'\<lparr>Mu := unlocked\<rparr>))
   \<and> (\<forall>p m'. run_callback g it (m\<lparr>Mu := write_locked\<rparr>) = (Panicked p, m') \<longrightarrow>
        SyncMap_DoLockedWithResult it g m = (Panicked p, m'\<lparr>Mu := unlocked\<rparr>))
   \<and> (\<forall>m' k v. \<exists>m''. SyncMap_Store k v (m'\<lparr>Mu := unlocked\<rparr>) = (Returned (), m''))
   \<and> (\<forall>m' k. SyncMap_Load k (m'\<lparr>Mu := unlocked\<rparr>) =
               (Returned (index2 (Data m') k), m'\<lparr>Mu := unlocked\<rparr>))"
proof (intro impI conjI allI)
  fix p m'
  assume u: "Mu m = unlocked" and r: "run_callback f it (m\<lparr>Mu := write_locked\<rparr>) = (Panicked p, m')"
  show "SyncMap_DoLocked it f m = (Panicked p, m'\<lparr>Mu := unlocked\<rparr>)"
    unfolding SyncMap_DoLocked_def using u r by (rule with_Lock_run_callback)
next
  fix p m'
  assume u: "Mu m = unlocked" and r: "run_callback g it (m\<lparr>Mu := write_locked\<rparr>) = (Panicked p, m')"
  show "SyncMap_DoLockedWithResult it g m = (Panicked p, m'\<lparr>Mu := unlocked\<rparr>)"
    unfolding SyncMap_DoLockedWithResult_def using u r by (rule with_Lock_run_callback)
qed (simp_all add: Store_unlocked Load_unlocked)

theorem DoLocked_panic_unlocks_witness:
  "Mu example_map = unlocked
   \<and> run_callback (Call_Store 3 30 (Panic ''boom'')) (\<lambda>d. []) (example_map\<lparr>Mu := write_locked\<rparr>) =
       (Panicked ''boom'', \<lparr>Mu = write_locked, Data = [2 \<mapsto> 20, 1 \<mapsto> 10, 3 \<mapsto> 30]\<rparr>)
   \<and> SyncMap_DoLocked (\<lambda>d. []) (Call_Store 3 30 (Panic ''boom'')) example_map =
       (Panicked ''boom'', \<lparr>Mu = unlocked, Data = [2 \<mapsto> 20, 1 \<mapsto> 10, 3 \<mapsto> 30]\<rparr>)
   \<and> SyncMap_DoLockedWithResult (\<lambda>d. []) (Call_Store 3 30 (Panic ''boom'')) example_map =
       (Panicked ''boom'', \<lparr>Mu = unlocked, Data = [2 \<mapsto> 20, 1 \<mapsto> 10, 3 \<mapsto> 30]\<rparr>)
   \<and> SyncMap_Load 3 \<lparr>Mu = unlocked, Data = [2 \<mapsto> 20, 1 \<mapsto> 10, 3 \<mapsto> 30]\<rparr> =
       (Returned (30, True), \<lparr>Mu = unlocked, Data = [2 \<mapsto> 20, 1 \<mapsto> 10, 3 \<mapsto> 30]\<rparr>)"
  using DoLocked_panic_unlocks[of example_map "Call_Store 3 30 (Panic ''boom'')" "\<lambda>d. []"
      "Call_Store 3 30 (Panic ''boom'')"]
  by (simp add: example_map_def unlocked_def write_locked_def with_Lock_def Lock_def Unlock_def with_RLock_def RLock_def RUnlock_def index2_def
      SyncMap_DoLocked_def SyncMap_DoLockedWithResult_def SyncMap_Load_def lockedMap_Store_def)

section \<open>LoadOrStore and LoadAndDelete\<close>



text \<open>
  C6. For a key that is in the map with the value \<open>v\<close>, \<^verbatim>\<open>LoadAndDelete(k)\<close> returns
  what \<^verbatim>\<open>Load(k)\<close> returns, \<open>(v, true)\<close>, and leaves the state that \<^verbatim>\<open>Remove(k)\<close>
  leaves, in which \<open>k\<close> is absent. For a key that is not in the map it returns the zero
  value and \<open>false\<close>, and the state is unchanged.
\<close>

theorem LoadAndDelete_Load_Remove:
  "Mu m = unlocked \<longrightarrow>
     (\<forall>v. Data m k = Some v \<longrightarrow>
        (\<exists>m'. SyncMap_LoadAndDelete k m = (Returned (v, True), m') \<and>
              SyncMap_Load k m = (Returned (v, True), m) \<and>
              SyncMap_Remove k m = (Returned True, m') \<and>
              Data m' k = None))
   \<and> (Data m k = None \<longrightarrow> SyncMap_LoadAndDelete k m = (Returned (0, False), m))"
  by (simp add: LoadAndDelete_unlocked Load_unlocked Remove_unlocked index2_def fun_upd_idem)

theorem LoadAndDelete_Load_Remove_witness:
  "Mu example_map = unlocked
   \<and> Data example_map 2 = Some 20
   \<and> SyncMap_LoadAndDelete 2 example_map = (Returned (20, True), \<lparr>Mu = unlocked, Data = [1 \<mapsto> 10]\<rparr>)
   \<and> SyncMap_Load 2 example_map = (Returned (20, True), example_map)
   \<and> SyncMap_Remove 2 example_map = (Returned True, \<lparr>Mu = unlocked, Data = [1 \<mapsto> 10]\<rparr>)
   \<and> Data example_map 3 = None
   \<and> SyncMap_LoadAndDelete 3 example_map = (Returned (0, False), example_map)"
  using LoadAndDelete_Load_Remove[of example_map 2] LoadAndDelete_Load_Remove[of example_map 3]
  by (simp add: example_map_def unlocked_def with_Lock_def Lock_def Unlock_def with_RLock_def RLock_def RUnlock_def index2_def delete_def
      SyncMap_LoadAndDelete_def SyncMap_Load_def SyncMap_Remove_def fun_upd_twist)

section \<open>Map\<close>

lemma Map_loop_eq:
  "distinct (map fst es) \<Longrightarrow>
   Map_loop f es d = (\<lambda>k. case map_of es k of None \<Rightarrow> d k | Some v \<Rightarrow> Some (f k v))"
proof (induction es arbitrary: d)
  case Nil
  then show ?case by simp
next
  case (Cons e es)
  obtain k v where e: "e = (k, v)" by (cases e)
  from Cons.prems e have k: "map_of es k = None" and d: "distinct (map fst es)"
    by (auto simp: map_of_eq_None_iff)
  show ?case
    unfolding e using k by (auto simp: Cons.IH[OF d] fun_eq_iff split: option.splits)
qed

text \<open>
  C7. Whatever the order of the iteration, \<^verbatim>\<open>Map(f)\<close> returns the map that has
  \<open>f k v\<close> at every key \<open>k\<close> of the SyncMap, where \<open>v\<close> is the value at \<open>k\<close>, and
  nothing at any other key; the SyncMap is unchanged.
\<close>

theorem Map_entries:
  "Mu m = unlocked \<and> iterates (Data m) es \<longrightarrow>
     SyncMap_Map es f m = (Returned (\<lambda>k. map_option (f k) (Data m k)), m)
   \<and> dom (\<lambda>k. map_option (f k) (Data m k)) = dom (Data m)"
proof (intro impI conjI)
  assume a: "Mu m = unlocked \<and> iterates (Data m) es"
  then have "Map_loop f es Map.empty = (\<lambda>k. map_option (f k) (Data m k))"
    by (auto simp: iterates_def Map_loop_eq fun_eq_iff split: option.splits)
  then show "SyncMap_Map es f m = (Returned (\<lambda>k. map_option (f k) (Data m k)), m)"
    using a by (simp add: Map_unlocked)
next
  show "dom (\<lambda>k. map_option (f k) (Data m k)) = dom (Data m)"
    by (auto simp: dom_def)
qed

theorem Map_entries_witness:
  "Mu example_map = unlocked
   \<and> iterates (Data example_map) [(1, 10), (2, 20)]
   \<and> SyncMap_Map [(1, 10), (2, 20)] (\<lambda>k v. v * 2) example_map =
       (Returned [1 \<mapsto> 20, 2 \<mapsto> 40], example_map)"
  using Map_entries[of example_map "[(1, 10), (2, 20)]" "\<lambda>k v. v * 2"]
  by (simp add: example_map_def unlocked_def with_RLock_def RLock_def RUnlock_def iterates_def SyncMap_Map_def)

section \<open>Range\<close>

lemma Range_loop_traced:
  "\<exists>tr'. Range_loop (traced f) es (s, tr) = (Range_loop f es s, tr @ tr')
     \<and> map (\<lambda>(k, v, g). (k, v)) tr' = take (length tr') es
     \<and> length tr' \<le> length es
     \<and> (\<forall>i. Suc i < length tr' \<longrightarrow> snd (snd (tr' ! i)))
     \<and> ((\<forall>k v s. fst (f k v s)) \<longrightarrow> length tr' = length es)"
proof (induction es arbitrary: s tr)
  case Nil
  show ?case by simp
next
  case (Cons e es)
  obtain k v where e: "e = (k, v)" by (cases e)
  obtain g s1 where f: "f k v s = (g, s1)" by (cases "f k v s")
  show ?case
  proof (cases g)
    case False
    have "Range_loop (traced f) (e # es) (s, tr) = (Range_loop f (e # es) s, tr @ [(k, v, g)])"
      using False f e by (simp add: traced_def)
    moreover have "\<not> (\<forall>k v s. fst (f k v s))"
      using False f by (metis fst_conv)
    ultimately show ?thesis
      using e by (intro exI[of _ "[(k, v, g)]"]) (auto simp del: Range_loop.simps)
  next
    case True
    from Cons.IH[of s1 "tr @ [(k, v, g)]"] obtain tr' where
      r: "Range_loop (traced f) es (s1, tr @ [(k, v, g)]) = (Range_loop f es s1, (tr @ [(k, v, g)]) @ tr')"
      and p: "map (\<lambda>(k, v, g). (k, v)) tr' = take (length tr') es"
      and l: "length tr' \<le> length es"
      and c: "\<forall>i. Suc i < length tr' \<longrightarrow> snd (snd (tr' ! i))"
      and a: "(\<forall>k v s. fst (f k v s)) \<longrightarrow> length tr' = length es"
      by blast
    have "Range_loop (traced f) (e # es) (s, tr) = (Range_loop f (e # es) s, tr @ ((k, v, g) # tr'))"
      using True f e r by (simp add: traced_def)
    moreover have "\<forall>i. Suc i < length ((k, v, g) # tr') \<longrightarrow> snd (snd (((k, v, g) # tr') ! i))"
    proof (intro allI impI)
      fix i assume "Suc i < length ((k, v, g) # tr')"
      then show "snd (snd (((k, v, g) # tr') ! i))"
        using c True by (cases i) simp_all
    qed
    ultimately show ?thesis
      using e p l a by (intro exI[of _ "(k, v, g) # tr'"]) simp
  qed
qed

lemma iterates_len: "iterates d es \<Longrightarrow> len d = int (length es)"
  by (auto simp: iterates_def len_def dom_map_of_conv_image_fst distinct_card
      simp flip: set_map)

text \<open>
  C8. \<^verbatim>\<open>Range\<close> with a visitor that records its calls: the SyncMap is unchanged; the
  record has no key twice, and every call in it is on an entry of the map; it is not
  longer than the number of entries; when the \<open>N\<close>-th call returned the stop signal
  there are exactly \<open>N\<close> calls; and when the visitor never returns the stop signal the
  calls are an order of iteration of the map, every entry once.
\<close>

theorem Range_visits:
  "Mu m = unlocked \<and> iterates (Data m) es \<longrightarrow>
     (\<exists>tr. SyncMap_Range es (traced f) (s, []) m = (Returned (Range_loop f es s, tr), m)
        \<and> distinct (map fst tr)
        \<and> (\<forall>(k, v, g) \<in> set tr. Data m k = Some v)
        \<and> int (length tr) \<le> len (Data m)
        \<and> (\<forall>N. 0 < N \<and> N \<le> length tr \<and> \<not> snd (snd (tr ! (N - 1))) \<longrightarrow> length tr = N)
        \<and> ((\<forall>k v s. fst (f k v s)) \<longrightarrow> iterates (Data m) (map (\<lambda>(k, v, g). (k, v)) tr)))"
proof
  assume a: "Mu m = unlocked \<and> iterates (Data m) es"
  then have d: "distinct (map fst es)" and mo: "map_of es = Data m"
    by (simp_all add: iterates_def)
  from Range_loop_traced[of f es s "[]"] obtain tr where
    r: "Range_loop (traced f) es (s, []) = (Range_loop f es s, tr)"
    and p: "map (\<lambda>(k, v, g). (k, v)) tr = take (length tr) es"
    and l: "length tr \<le> length es"
    and c: "\<forall>i. Suc i < length tr \<longrightarrow> snd (snd (tr ! i))"
    and e: "(\<forall>k v s. fst (f k v s)) \<longrightarrow> length tr = length es"
    by auto
  have fst_eq: "map fst tr = map fst (map (\<lambda>(k, v, g). (k, v)) tr)"
    by (simp add: comp_def case_prod_beta)
  have 1: "SyncMap_Range es (traced f) (s, []) m = (Returned (Range_loop f es s, tr), m)"
    using a r by (simp add: Range_unlocked)
  have 2: "distinct (map fst tr)"
    unfolding fst_eq p using d by (simp add: take_map[symmetric])
  have 3: "\<forall>(k, v, g) \<in> set tr. Data m k = Some v"
  proof (clarify)
    fix k v g assume "(k, v, g) \<in> set tr"
    then have "(k, v) \<in> set (map (\<lambda>(k, v, g). (k, v)) tr)" by force
    then have "(k, v) \<in> set es" unfolding p by (rule in_set_takeD)
    then show "Data m k = Some v" using d mo by (metis map_of_is_SomeI)
  qed
  have 4: "int (length tr) \<le> len (Data m)"
    using l iterates_len[OF a[THEN conjunct2]] by simp
  have 5: "\<forall>N. 0 < N \<and> N \<le> length tr \<and> \<not> snd (snd (tr ! (N - 1))) \<longrightarrow> length tr = N"
  proof (intro allI impI)
    fix N assume n: "0 < N \<and> N \<le> length tr \<and> \<not> snd (snd (tr ! (N - 1)))"
    then have "\<not> Suc (N - 1) < length tr" using c by blast
    then show "length tr = N" using n by simp
  qed
  have 6: "(\<forall>k v s. fst (f k v s)) \<longrightarrow> iterates (Data m) (map (\<lambda>(k, v, g). (k, v)) tr)"
  proof
    assume "\<forall>k v s. fst (f k v s)"
    then have "length tr = length es" using e by blast
    then have "map (\<lambda>(k, v, g). (k, v)) tr = es" using p by simp
    then show "iterates (Data m) (map (\<lambda>(k, v, g). (k, v)) tr)" using a by simp
  qed
  from 1 2 3 4 5 6 show "\<exists>tr. SyncMap_Range es (traced f) (s, []) m = (Returned (Range_loop f es s, tr), m)
        \<and> distinct (map fst tr)
        \<and> (\<forall>(k, v, g) \<in> set tr. Data m k = Some v)
        \<and> int (length tr) \<le> len (Data m)
        \<and> (\<forall>N. 0 < N \<and> N \<le> length tr \<and> \<not> snd (snd (tr ! (N - 1))) \<longrightarrow> length tr = N)
        \<and> ((\<forall>k v s. fst (f k v s)) \<longrightarrow> iterates (Data m) (map (\<lambda>(k, v, g). (k, v)) tr))"
    by blast
qed

theorem Range_visits_witness:
  "Mu example_map = unlocked
   \<and> iterates (Data example_map) [(1, 10), (2, 20)]
   \<and> SyncMap_Range [(1, 10), (2, 20)] (traced (\<lambda>k v s. (False, s + v))) (0, []) example_map =
       (Returned (10, [(1, 10, False)]), example_map)
   \<and> \<not> snd (snd ([(1::nat, 10::int, False)] ! (1 - 1)))
   \<and> (\<forall>k v s. fst ((\<lambda>(k::nat) (v::int) (s::int). (True, s + v)) k v s))
   \<and> SyncMap_Range [(1, 10), (2, 20)] (traced (\<lambda>k v s. (True, s + v))) (0, []) example_map =
       (Returned (30, [(1, 10, True), (2, 20, True)]), example_map)"
  using Range_visits[of example_map "[(1, 10), (2, 20)]" "\<lambda>k v s. (False, s + v)" 0]
    Range_visits[of example_map "[(1, 10), (2, 20)]" "\<lambda>k v s. (True, s + v)" 0]
  by (simp add: example_map_def unlocked_def with_RLock_def RLock_def RUnlock_def iterates_def traced_def SyncMap_Range_def)

section \<open>Purge\<close>



end
